theory Spec2Isabelle
  imports
    Complex_Main
    "HOL-Library.Char_ord"
    "HOL-Library.List_Lexorder"
    "HOL-Library.Product_Lexorder"
begin

section \<open>Values of the host language\<close>

text \<open>
  The engine of \<^verbatim>\<open>FSD_project.py\<close> is a handful of Python functions over a SQLite
  database (tables \<^verbatim>\<open>tasks\<close> and \<^verbatim>\<open>work_sessions\<close>) and the Streamlit session state
  (the Pomodoro timer). The embedding passes the database and the session state explicitly
  and returns, for every call, what the call raised (if anything) together with the state
  it left behind: a Python exception does not undo the statements committed before it.

  \<^item> \<^verbatim>\<open>REAL\<close> columns and Python floats are modelled as exact rationals; rounding to one
    decimal is rounding half to even on the exact value.
  \<^item> Strings are ASCII strings.
  \<^item> The clock is an argument \<open>now\<close> of each call; the few clock reads made during one
    call are taken to return the same instant.
\<close>

datatype error = IndexError | ValueError | OverflowError

subsection \<open>Truth values of Python objects\<close>

definition truthy_int :: "int option \<Rightarrow> bool" where
  "truthy_int v = (case v of None \<Rightarrow> False | Some n \<Rightarrow> n \<noteq> 0)"

definition truthy_str :: "string option \<Rightarrow> bool" where
  "truthy_str v = (case v of None \<Rightarrow> False | Some s \<Rightarrow> s \<noteq> [])"

definition truthy_num :: "rat option \<Rightarrow> bool" where
  "truthy_num v = (case v of None \<Rightarrow> False | Some x \<Rightarrow> x \<noteq> 0)"

subsection \<open>\<^verbatim>\<open>str.strip\<close>\<close>

definition isspace :: "char \<Rightarrow> bool" where
  "isspace c = (c \<in> set [CHR 0x09, CHR 0x0A, CHR 0x0B, CHR 0x0C, CHR 0x0D,
                          CHR 0x1C, CHR 0x1D, CHR 0x1E, CHR 0x1F, CHR 0x20])"

definition strip :: "string \<Rightarrow> string" where
  "strip s = rev (dropWhile isspace (rev (dropWhile isspace s)))"

subsection \<open>Rounding and means\<close>

text \<open>\<^verbatim>\<open>round(x, 1)\<close> and \<^verbatim>\<open>Series.round(1)\<close>: to the nearest tenth, ties to the even tenth.\<close>

definition round_half_even :: "rat \<Rightarrow> int" where
  "round_half_even y =
     (let f = \<lfloor>y\<rfloor>; r = y - of_int f
      in if r < 1 / 2 then f
         else if 1 / 2 < r then f + 1
         else if even f then f else f + 1)"

definition round1 :: "rat \<Rightarrow> rat" where
  "round1 x = of_int (round_half_even (x * 10)) / 10"

definition mean :: "rat list \<Rightarrow> rat" where
  "mean xs = sum_list xs / of_nat (length xs)"

section \<open>Dates and times (\<^verbatim>\<open>datetime\<close>)\<close>

text \<open>
  A naive \<^verbatim>\<open>datetime.datetime\<close>, and the proleptic Gregorian calendar arithmetic of the
  standard library: a date is converted to its ordinal (day 1 is 0001-01-01), days are
  added to the ordinal, and the result is converted back. The library refuses ordinals
  outside \<open>1 .. 3652059\<close> (0001-01-01 to 9999-12-31) with \<^verbatim>\<open>OverflowError\<close>.
\<close>

record datetime =
  year :: nat
  month :: nat
  day :: nat
  hour :: nat
  minute :: nat
  second :: nat
  microsecond :: nat

type_synonym date = "nat \<times> nat \<times> nat"

type_synonym time_of_day = "nat \<times> nat \<times> nat \<times> nat"

definition is_leap :: "nat \<Rightarrow> bool" where
  "is_leap y = (y mod 4 = 0 \<and> (y mod 100 \<noteq> 0 \<or> y mod 400 = 0))"

definition days_before_year :: "nat \<Rightarrow> nat" where
  "days_before_year y = (let z = y - 1 in z * 365 + z div 4 - z div 100 + z div 400)"

definition DAYS_IN_MONTH :: "nat list" where
  "DAYS_IN_MONTH = [0, 31, 28, 31, 30, 31, 30, 31, 31, 30, 31, 30, 31]"

definition DAYS_BEFORE_MONTH :: "nat list" where
  "DAYS_BEFORE_MONTH = [0, 0, 31, 59, 90, 120, 151, 181, 212, 243, 273, 304, 334]"

definition days_in_month :: "nat \<Rightarrow> nat \<Rightarrow> nat" where
  "days_in_month y m = (if m = 2 \<and> is_leap y then 29 else DAYS_IN_MONTH ! m)"

definition days_before_month :: "nat \<Rightarrow> nat \<Rightarrow> nat" where
  "days_before_month y m = DAYS_BEFORE_MONTH ! m + (if 2 < m \<and> is_leap y then 1 else 0)"

definition ymd2ord :: "nat \<Rightarrow> nat \<Rightarrow> nat \<Rightarrow> nat" where
  "ymd2ord y m d = days_before_year y + days_before_month y m + d"

definition ord2ymd :: "nat \<Rightarrow> date" where
  "ord2ymd n0 =
     (let n = n0 - 1;
          n400 = n div 146097; n = n mod 146097;
          n100 = n div 36524; n = n mod 36524;
          n4 = n div 1461; n = n mod 1461;
          n1 = n div 365; n = n mod 365;
          y = n400 * 400 + 1 + n100 * 100 + n4 * 4 + n1
      in if n1 = 4 \<or> n100 = 4 then (y - 1, 12, 31)
         else
           let leapyear = (n1 = 3 \<and> (n4 \<noteq> 24 \<or> n100 = 3));
               m = (n + 50) div 32;
               preceding = DAYS_BEFORE_MONTH ! m + (if 2 < m \<and> leapyear then 1 else 0)
           in if n < preceding
              then (y, m - 1,
                    n - (preceding - (DAYS_IN_MONTH ! (m - 1)
                                      + (if m - 1 = 2 \<and> leapyear then 1 else 0))) + 1)
              else (y, m, n - preceding + 1))"

definition MAXORDINAL :: nat where
  "MAXORDINAL = 3652059"

definition toordinal :: "datetime \<Rightarrow> nat" where
  "toordinal d = ymd2ord (year d) (month d) (day d)"


definition combine :: "date \<Rightarrow> time_of_day \<Rightarrow> datetime" where
  "combine d t =
     (case d of (y, m, dd) \<Rightarrow> case t of (h, mi, s, us) \<Rightarrow>
        \<lparr>year = y, month = m, day = dd, hour = h, minute = mi, second = s, microsecond = us\<rparr>)"

text \<open>\<^verbatim>\<open>d + timedelta(days=n)\<close>: the time of day is kept, the date moves by \<open>n\<close> ordinals.\<close>

definition plus_days :: "datetime \<Rightarrow> nat \<Rightarrow> error + datetime" where
  "plus_days d n =
     (let k = toordinal d + n
      in if 0 < k \<and> k \<le> MAXORDINAL
         then (case ord2ymd k of (y, m, dd) \<Rightarrow> Inr (d\<lparr>year := y, month := m, day := dd\<rparr>))
         else Inl OverflowError)"

text \<open>\<^verbatim>\<open>(e - s).total_seconds() / 60\<close>\<close>

definition total_microseconds :: "datetime \<Rightarrow> int" where
  "total_microseconds d =
     (int (toordinal d) * 86400 + int (hour d) * 3600 + int (minute d) * 60 + int (second d))
       * 1000000 + int (microsecond d)"

definition minutes_between :: "datetime \<Rightarrow> datetime \<Rightarrow> rat" where
  "minutes_between e s = of_int (total_microseconds e - total_microseconds s) / 60000000"

subsection \<open>\<^verbatim>\<open>isoformat\<close>\<close>

definition digit_char :: "nat \<Rightarrow> char" where
  "digit_char n = ''0123456789'' ! n"

fun decimal :: "nat \<Rightarrow> string" where
  "decimal n =
     (if n < 10 then [digit_char n] else decimal (n div 10) @ [digit_char (n mod 10)])"

declare decimal.simps [simp del]

definition zfill :: "nat \<Rightarrow> nat \<Rightarrow> string" where
  "zfill w n = replicate (w - length (decimal n)) CHR ''0'' @ decimal n"

text \<open>\<^verbatim>\<open>isoformat(timespec="seconds")\<close>, as \<^verbatim>\<open>now_iso\<close> calls it.\<close>

definition now_iso :: "datetime \<Rightarrow> string" where
  "now_iso d =
     zfill 4 (year d) @ ''-'' @ zfill 2 (month d) @ ''-'' @ zfill 2 (day d) @ ''T''
       @ zfill 2 (hour d) @ '':'' @ zfill 2 (minute d) @ '':'' @ zfill 2 (second d)"

text \<open>\<^verbatim>\<open>isoformat()\<close> with the default \<^verbatim>\<open>timespec="auto"\<close>: microseconds only when non-zero.\<close>

definition isoformat :: "datetime \<Rightarrow> string" where
  "isoformat d =
     now_iso d @ (if microsecond d \<noteq> 0 then ''.'' @ zfill 6 (microsecond d) else [])"

subsection \<open>\<^verbatim>\<open>fromisoformat\<close> on second-precision timestamps\<close>

text \<open>
  Which strings \<^verbatim>\<open>datetime.fromisoformat\<close> and \<^verbatim>\<open>pandas.to_datetime\<close> accept depends on
  the library version, so the engine's functions below take the parser as an argument
  (\<open>None\<close>: the parser raises) and their theorems hold for every parser. The parser here
  reads exactly the format \<^verbatim>\<open>YYYY-MM-DDTHH:MM:SS\<close> that \<^verbatim>\<open>now_iso\<close> and \<^verbatim>\<open>isoformat\<close>
  write; it is what the concrete runs use.
\<close>

definition digit_val :: "char \<Rightarrow> nat option" where
  "digit_val c =
     (if CHR ''0'' \<le> c \<and> c \<le> CHR ''9'' then Some (of_char c - 48) else None)"

fun parse_digits :: "nat \<Rightarrow> string \<Rightarrow> nat option" where
  "parse_digits acc [] = Some acc"
| "parse_digits acc (c # cs) =
     (case digit_val c of None \<Rightarrow> None | Some v \<Rightarrow> parse_digits (acc * 10 + v) cs)"

definition field :: "string \<Rightarrow> nat \<Rightarrow> nat \<Rightarrow> nat option" where
  "field s i n = parse_digits 0 (take n (drop i s))"

definition fromisoformat_seconds :: "string \<Rightarrow> datetime option" where
  "fromisoformat_seconds s =
     (if length s = 19 \<and> s ! 4 = CHR ''-'' \<and> s ! 7 = CHR ''-'' \<and> s ! 10 = CHR ''T''
         \<and> s ! 13 = CHR '':'' \<and> s ! 16 = CHR '':''
      then
        (case (field s 0 4, field s 5 2, field s 8 2, field s 11 2, field s 14 2, field s 17 2) of
           (Some y, Some m, Some d, Some h, Some mi, Some sec) \<Rightarrow>
             if 1 \<le> y \<and> 1 \<le> m \<and> m \<le> 12 \<and> 1 \<le> d \<and> d \<le> days_in_month y m
                \<and> h < 24 \<and> mi < 60 \<and> sec < 60
             then Some \<lparr>year = y, month = m, day = d, hour = h, minute = mi, second = sec,
                        microsecond = 0\<rparr>
             else None
         | _ \<Rightarrow> None)
      else None)"

text \<open>The instants the clock can return.\<close>

definition valid_datetime :: "datetime \<Rightarrow> bool" where
  "valid_datetime d \<longleftrightarrow>
     1 \<le> year d \<and> year d \<le> 9999 \<and> 1 \<le> month d \<and> month d \<le> 12
     \<and> 1 \<le> day d \<and> day d \<le> days_in_month (year d) (month d)
     \<and> hour d < 24 \<and> minute d < 60 \<and> second d < 60 \<and> microsecond d < 1000000"

section \<open>The record store and the session state\<close>

text \<open>
  A row of \<^verbatim>\<open>tasks\<close>: \<^verbatim>\<open>id\<close> is the primary key, \<^verbatim>\<open>title\<close> is \<^verbatim>\<open>NOT NULL\<close>, every other
  column may hold \<^verbatim>\<open>NULL\<close>. A row of \<^verbatim>\<open>work_sessions\<close>: both inserts of the program bind
  all four columns, so they are not optional here.
\<close>

record task =
  t_id :: int
  title :: string
  description :: "string option"
  category :: "string option"
  priority :: "string option"
  status :: "string option"
  created_at :: "string option"
  due_at :: "string option"
  completed_at :: "string option"
  predicted_minutes :: "rat option"
  recurrence :: "string option"

record work_session =
  ws_id :: int
  task_id :: int
  start_time :: string
  end_time :: string
  duration_minutes :: rat

record state =
  tasks :: "task list"
  work_sessions :: "work_session list"
  ss_pom_task :: "int option"
  ss_pom_start :: "string option"

text \<open>
  \<^verbatim>\<open>INTEGER PRIMARY KEY AUTOINCREMENT\<close>: one more than the largest row id so far (the
  program never deletes a row), starting at 1.
\<close>

definition next_rowid :: "int list \<Rightarrow> int" where
  "next_rowid ids = foldr max ids 0 + 1"

section \<open>Queries\<close>

text \<open>
  \<^verbatim>\<open>get_sessions\<close>: every session row with the title and category of its task
  (\<^verbatim>\<open>LEFT JOIN tasks t ON ws.task_id=t.id\<close>); both are \<^verbatim>\<open>NULL\<close> for a session whose task
  is not in the table. \<^verbatim>\<open>id\<close> is the primary key, so at most one task matches.
\<close>

definition fetch_task :: "state \<Rightarrow> int \<Rightarrow> task option" where
  "fetch_task st i = find (\<lambda>t. t_id t = i) (tasks st)"

definition get_sessions :: "state \<Rightarrow> (work_session \<times> string option \<times> string option) list" where
  "get_sessions st =
     map (\<lambda>ws. case fetch_task st (task_id ws) of
                  None \<Rightarrow> (ws, None, None)
                | Some t \<Rightarrow> (ws, Some (title t), category t))
       (work_sessions st)"

text \<open>
  \<^verbatim>\<open>df.groupby(key)[val]\<close>: the groups in ascending key order, rows with a missing key
  dropped, each group holding its rows' values in row order.
\<close>

definition groupby ::
  "('r \<Rightarrow> 'k::linorder option) \<Rightarrow> ('r \<Rightarrow> 'v) \<Rightarrow> 'r list \<Rightarrow> ('k \<times> 'v list) list" where
  "groupby key val rows =
     map (\<lambda>k. (k, map val (filter (\<lambda>r. key r = Some k) rows)))
       (sort (remdups (List.map_filter key rows)))"

section \<open>Time prediction\<close>

text \<open>
  \<^verbatim>\<open>
  def avg_time_category():
      df = get_sessions()
      return {} if df.empty else df.groupby("category")["duration_minutes"].mean().to_dict()

  def predict_time(cat):
      avg = avg_time_category()
      if cat in avg: return round(float(avg[cat]),1)
      if avg: return round(float(pd.Series(avg).mean()),1)
      return 30.0
  \<close>
  The dictionary is kept as the list of its items.
\<close>

definition avg_time_category :: "state \<Rightarrow> (string \<times> rat) list" where
  "avg_time_category st =
     (let df = get_sessions st
      in if df = [] then []
         else map (\<lambda>(k, vs). (k, mean vs))
                (groupby (\<lambda>r. snd (snd r)) (\<lambda>r. duration_minutes (fst r)) df))"

definition predict_time :: "state \<Rightarrow> string \<Rightarrow> rat" where
  "predict_time st cat =
     (let avg = avg_time_category st
      in case map_of avg cat of
           Some v \<Rightarrow> round1 v
         | None \<Rightarrow> if avg \<noteq> [] then round1 (mean (map snd avg)) else 30)"

section \<open>Recurrence and completion\<close>

text \<open>
  \<^verbatim>\<open>
  def recur_create(old, type):
      if not old["due_at"]: return
      try: dt_old = dt.datetime.fromisoformat(old["due_at"])
      except: return
      new = dt_old + (dt.timedelta(days=1) if type=="Daily"
                      else dt.timedelta(weeks=1) if type=="Weekly" else dt.timedelta())
      c.execute("INSERT INTO tasks(title,description,category,priority,status,created_at,
                 due_at,predicted_minutes,recurrence) VALUES(?,?,?,?, 'Pending',?,?,?,?)",
                (old["title"],old["description"],old["category"],old["priority"],now_iso(),
                 new.isoformat(),old["predicted_minutes"],type))
      conn.commit()
  \<close>
  The addition is outside the \<^verbatim>\<open>try\<close>: when it raises, the exception leaves the function.
\<close>

definition recur_days :: "string option \<Rightarrow> nat" where
  "recur_days ty = (if ty = Some ''Daily'' then 1 else if ty = Some ''Weekly'' then 7 else 0)"

definition successor :: "state \<Rightarrow> datetime \<Rightarrow> task \<Rightarrow> string option \<Rightarrow> datetime \<Rightarrow> task" where
  "successor st now old ty new =
     \<lparr>t_id = next_rowid (map t_id (tasks st)),
      title = title old,
      description = description old,
      category = category old,
      priority = priority old,
      status = Some ''Pending'',
      created_at = Some (now_iso now),
      due_at = Some (isoformat new),
      completed_at = None,
      predicted_minutes = predicted_minutes old,
      recurrence = ty\<rparr>"

definition recur_create ::
  "(string \<Rightarrow> datetime option) \<Rightarrow> state \<Rightarrow> datetime \<Rightarrow> task \<Rightarrow> string option
     \<Rightarrow> (error + unit) \<times> state" where
  "recur_create fromisoformat st now old ty =
     (if \<not> truthy_str (due_at old) then (Inr (), st)
      else case fromisoformat (the (due_at old)) of
             None \<Rightarrow> (Inr (), st)
           | Some dt_old \<Rightarrow>
               (case plus_days dt_old (recur_days ty) of
                  Inl e \<Rightarrow> (Inl e, st)
                | Inr new \<Rightarrow>
                    (Inr (), st\<lparr>tasks := tasks st @ [successor st now old ty new]\<rparr>)))"

text \<open>
  \<^verbatim>\<open>
  def complete(task_id, mins=None):
      row = fetch("SELECT * FROM tasks WHERE id=?", (task_id,)).iloc[0]
      c.execute("UPDATE tasks SET completed_at=?,status='Completed' WHERE id=?",
                (now_iso(),task_id))
      conn.commit()
      if mins and mins>0:
          c.execute("INSERT INTO work_sessions(task_id,start_time,end_time,duration_minutes)
                     VALUES(?,?,?,?)", (task_id,now_iso(),now_iso(),mins))
          conn.commit()
      if row["recurrence"]!="None": recur_create(row,row["recurrence"])
  \<close>
  \<^verbatim>\<open>.iloc[0]\<close> on the empty result raises \<^verbatim>\<open>IndexError\<close>, before anything is written.
\<close>

definition mark_completed :: "datetime \<Rightarrow> int \<Rightarrow> task \<Rightarrow> task" where
  "mark_completed now i t =
     (if t_id t = i then t\<lparr>completed_at := Some (now_iso now), status := Some ''Completed''\<rparr>
      else t)"

definition insert_session :: "state \<Rightarrow> int \<Rightarrow> string \<Rightarrow> string \<Rightarrow> rat \<Rightarrow> state" where
  "insert_session st i start fin mins =
     st\<lparr>work_sessions := work_sessions st @
          [\<lparr>ws_id = next_rowid (map ws_id (work_sessions st)), task_id = i,
            start_time = start, end_time = fin, duration_minutes = mins\<rparr>]\<rparr>"

definition complete ::
  "(string \<Rightarrow> datetime option) \<Rightarrow> state \<Rightarrow> datetime \<Rightarrow> int \<Rightarrow> rat option
     \<Rightarrow> (error + unit) \<times> state" where
  "complete fromisoformat st now i mins =
     (case fetch_task st i of
        None \<Rightarrow> (Inl IndexError, st)
      | Some row \<Rightarrow>
          let st1 = st\<lparr>tasks := map (mark_completed now i) (tasks st)\<rparr>;
              st2 = (if truthy_num mins \<and> 0 < the mins
                     then insert_session st1 i (now_iso now) (now_iso now) (the mins)
                     else st1)
          in if recurrence row \<noteq> Some ''None''
             then recur_create fromisoformat st2 now row (recurrence row)
             else (Inr (), st2))"

section \<open>Pomodoro timer\<close>

text \<open>
  \<^verbatim>\<open>
  def pom_start(id):
      st.session_state.pom_task=id
      st.session_state.pom_start=now_iso()

  def pom_stop(save=True):
      id=st.session_state.pom_task; start=st.session_state.pom_start
      st.session_state.pom_task=None; st.session_state.pom_start=None
      if not(save and id and start): return
      s=dt.datetime.fromisoformat(start); e=dt.datetime.now()
      mins=max(1,(e-s).total_seconds()/60)
      c.execute("INSERT INTO work_sessions(task_id,start_time,end_time,duration_minutes)
                 VALUES(?,?,?,?)", (id,start,e.isoformat(timespec="seconds"),mins))
      conn.commit()
  \<close>
\<close>

definition pom_start :: "state \<Rightarrow> datetime \<Rightarrow> int \<Rightarrow> (error + unit) \<times> state" where
  "pom_start st now i = (Inr (), st\<lparr>ss_pom_task := Some i, ss_pom_start := Some (now_iso now)\<rparr>)"

text \<open>The Pomodoro tab shows a running timer when both fields are set (\<^verbatim>\<open>if tid and start\<close>).\<close>

definition timer_active :: "state \<Rightarrow> bool" where
  "timer_active st = (truthy_int (ss_pom_task st) \<and> truthy_str (ss_pom_start st))"

definition pom_stop ::
  "(string \<Rightarrow> datetime option) \<Rightarrow> state \<Rightarrow> datetime \<Rightarrow> bool \<Rightarrow> (error + unit) \<times> state" where
  "pom_stop fromisoformat st now save =
     (let i = ss_pom_task st; start = ss_pom_start st;
          st1 = st\<lparr>ss_pom_task := None, ss_pom_start := None\<rparr>
      in if \<not> (save \<and> truthy_int i \<and> truthy_str start) then (Inr (), st1)
         else case fromisoformat (the start) of
                None \<Rightarrow> (Inl ValueError, st1)
              | Some s \<Rightarrow>
                  (Inr (), insert_session st1 (the i) (the start) (now_iso now)
                             (max 1 (minutes_between now s))))"

section \<open>Daily scores\<close>



section \<open>Creating a task\<close>

text \<open>
  The form of the task tab, with its inputs as arguments:
  \<^verbatim>\<open>
  pred=predict_time(cat) if cat.strip() else 30
  if st.form_submit_button("Add Task"):
      if not title.strip(): st.error("Task title required")
      else:
          due=dt.datetime.combine(d,t).isoformat()
          c.execute("INSERT INTO tasks(title,description,category,priority,status,created_at,
                     due_at,predicted_minutes,recurrence) VALUES(?,?,?,?, 'Pending',?,?,?,?)",
                    (title.strip(), desc.strip() if desc else "", cat.strip(), priority,
                     now_iso(), due, pred, rec))
          conn.commit()
  \<close>
  A blank title only shows a message: nothing is raised and nothing is stored.
\<close>

definition new_task ::
  "state \<Rightarrow> datetime \<Rightarrow> string \<Rightarrow> string \<Rightarrow> string \<Rightarrow> date \<Rightarrow> time_of_day \<Rightarrow> string
     \<Rightarrow> string \<Rightarrow> (error + unit) \<times> state" where
  "new_task st now title_in cat prio d t recur desc =
     (let pred = (if strip cat \<noteq> [] then predict_time st cat else 30)
      in if strip title_in = [] then (Inr (), st)
         else (Inr (), st\<lparr>tasks := tasks st @
                 [\<lparr>t_id = next_rowid (map t_id (tasks st)),
                   title = strip title_in,
                   description = Some (if desc \<noteq> [] then strip desc else []),
                   category = Some (strip cat),
                   priority = Some prio,
                   status = Some ''Pending'',
                   created_at = Some (now_iso now),
                   due_at = Some (isoformat (combine d t)),
                   completed_at = None,
                   predicted_minutes = Some pred,
                   recurrence = Some recur\<rparr>]\<rparr>))"

section \<open>Runs of the engine\<close>

text \<open>
  The database starts with both tables empty (\<^verbatim>\<open>CREATE TABLE IF NOT EXISTS\<close>) and the
  session state with no timer. A run is a sequence of calls, each at its own instant; a
  call that raises leaves the state it had reached.
\<close>

datatype action =
    NewTask string string string date time_of_day string string
  | Complete int "rat option"
  | PomStart int
  | PomStop bool

definition empty_store :: state where
  "empty_store = \<lparr>tasks = [], work_sessions = [], ss_pom_task = None, ss_pom_start = None\<rparr>"

fun exec ::
  "(string \<Rightarrow> datetime option) \<Rightarrow> state \<Rightarrow> datetime \<Rightarrow> action \<Rightarrow> (error + unit) \<times> state" where
  "exec p st now (NewTask ti cat prio d t recur desc) = new_task st now ti cat prio d t recur desc"
| "exec p st now (Complete i mins) = complete p st now i mins"
| "exec p st now (PomStart i) = pom_start st now i"
| "exec p st now (PomStop save) = pom_stop p st now save"

fun run :: "(string \<Rightarrow> datetime option) \<Rightarrow> state \<Rightarrow> (datetime \<times> action) list \<Rightarrow> state" where
  "run p st [] = st"
| "run p st ((now, a) # as) = run p (snd (exec p st now a)) as"

text \<open>The status of the task with a given id, if the table has it.\<close>

definition status_of :: "state \<Rightarrow> int \<Rightarrow> string option option" where
  "status_of st i = map_option status (fetch_task st i)"

text \<open>The start times in the store are timestamps the parser reads.\<close>

definition stamps_ok :: "state \<Rightarrow> bool" where
  "stamps_ok st \<longleftrightarrow>
     (\<forall>ws\<in>set (work_sessions st). fromisoformat_seconds (start_time ws) \<noteq> None)
     \<and> (\<forall>s. ss_pom_start st = Some s \<longrightarrow> fromisoformat_seconds s \<noteq> None)"

section \<open>Notions of the specification\<close>

text \<open>
  The specification speaks of the sessions of a category, of the categories that have
  history, of the calendar date of a session and of the minutes logged on a date. These
  are its words, not the program's; the theorems relate the program to them.
\<close>

definition owner_category :: "state \<Rightarrow> work_session \<Rightarrow> string option" where
  "owner_category st ws =
     (case fetch_task st (task_id ws) of None \<Rightarrow> None | Some t \<Rightarrow> category t)"

definition category_durations :: "state \<Rightarrow> string \<Rightarrow> rat list" where
  "category_durations st C =
     map duration_minutes (filter (\<lambda>ws. owner_category st ws = Some C) (work_sessions st))"

definition history_categories :: "state \<Rightarrow> string list" where
  "history_categories st = remdups (List.map_filter (owner_category st) (work_sessions st))"




definition task_ok :: "task \<Rightarrow> bool" where
  "task_ok t \<longleftrightarrow>
     (status t = Some ''Pending'' \<or> status t = Some ''Completed'')
     \<and> (completed_at t \<noteq> None \<longleftrightarrow> status t = Some ''Completed'')"

section \<open>Concrete stores\<close>

text \<open>The inputs of the concrete runs: an instant, a store with one task, a store with history.\<close>

definition ex_now :: datetime where
  "ex_now = \<lparr>year = 2024, month = 1, day = 1, hour = 10, minute = 0, second = 0,
             microsecond = 0\<rparr>"

definition ex_task :: "string option \<Rightarrow> string \<Rightarrow> task" where
  "ex_task due recur =
     \<lparr>t_id = 1, title = ''Report'', description = Some [], category = Some ''Writing'',
      priority = Some ''High'', status = Some ''Pending'',
      created_at = Some ''2024-01-01T10:00:00'', due_at = due, completed_at = None,
      predicted_minutes = Some 30, recurrence = Some recur\<rparr>"

definition ex_store :: "string option \<Rightarrow> string \<Rightarrow> state" where
  "ex_store due recur =
     \<lparr>tasks = [ex_task due recur], work_sessions = [], ss_pom_task = None,
      ss_pom_start = None\<rparr>"

definition ex_history :: state where
  "ex_history =
     \<lparr>tasks = [ex_task (Some ''2024-01-01T17:00:00'') ''None'',
               (ex_task (Some ''2024-01-02T17:00:00'') ''None'')
                 \<lparr>t_id := 2, title := ''Parser'', category := Some ''Code''\<rparr>],
      work_sessions =
        [\<lparr>ws_id = 1, task_id = 1, start_time = ''2024-01-01T09:00:00'',
           end_time = ''2024-01-01T14:00:00'', duration_minutes = 300\<rparr>,
         \<lparr>ws_id = 2, task_id = 1, start_time = ''2024-01-01T15:00:00'',
           end_time = ''2024-01-01T18:00:00'', duration_minutes = 180\<rparr>,
         \<lparr>ws_id = 3, task_id = 2, start_time = ''2024-01-02T09:00:00'',
           end_time = ''2024-01-02T11:00:00'', duration_minutes = 120\<rparr>],
      ss_pom_task = None, ss_pom_start = None\<rparr>"

definition ex_timer :: state where
  "ex_timer =
     (ex_store (Some ''2024-01-01T17:00:00'') ''None'')
       \<lparr>ss_pom_task := Some 1, ss_pom_start := Some ''2024-01-01T10:00:00''\<rparr>"

section \<open>Evaluation rules\<close>

text \<open>
  \<open>decimal\<close> recurses under a condition, so its equation is not a rewrite rule; the two
  conditional rules below evaluate it on numerals.
\<close>

lemma decimal_lt: "n < 10 \<Longrightarrow> decimal n = [digit_char n]"
  by (simp add: decimal.simps)

lemma decimal_ge: "\<not> n < 10 \<Longrightarrow> decimal n = decimal (n div 10) @ [digit_char (n mod 10)]"
  by (subst decimal.simps) simp

lemmas calendar_defs =
  plus_days_def toordinal_def ymd2ord_def days_before_year_def days_before_month_def
  days_in_month_def DAYS_BEFORE_MONTH_def DAYS_IN_MONTH_def is_leap_def MAXORDINAL_def
  ord2ymd_def Let_def

lemmas format_defs =
  isoformat_def now_iso_def zfill_def digit_char_def decimal_lt decimal_ge

lemmas parse_defs =
  fromisoformat_seconds_def field_def digit_val_def days_in_month_def DAYS_IN_MONTH_def
  is_leap_def

lemma now_iso_ex_now: "now_iso ex_now = ''2024-01-01T10:00:00''"
  by (simp add: ex_now_def format_defs)


lemma parse_2024_01_01:
  "fromisoformat_seconds ''2024-01-01T17:00:00''
     = Some \<lparr>year = 2024, month = 1, day = 1, hour = 17, minute = 0, second = 0,
              microsecond = 0\<rparr>"
  by (simp add: parse_defs)

lemma parse_9999_12_31:
  "fromisoformat_seconds ''9999-12-31T17:00:00''
     = Some \<lparr>year = 9999, month = 12, day = 31, hour = 17, minute = 0, second = 0,
              microsecond = 0\<rparr>"
  by (simp add: parse_defs)

lemma parse_next_week: "fromisoformat_seconds ''next week'' = None"
  by (simp add: parse_defs)

lemma next_day_2024_01_01:
  "plus_days \<lparr>year = 2024, month = 1, day = 1, hour = 17, minute = 0, second = 0,
              microsecond = 0\<rparr> 1
     = Inr \<lparr>year = 2024, month = 1, day = 2, hour = 17, minute = 0, second = 0,
             microsecond = 0\<rparr>"
  by (simp add: calendar_defs)

lemma next_day_9999_12_31:
  "plus_days \<lparr>year = 9999, month = 12, day = 31, hour = 17, minute = 0, second = 0,
              microsecond = 0\<rparr> 1 = Inl OverflowError"
  by (simp add: calendar_defs)

lemma isoformat_2024_01_02:
  "isoformat \<lparr>year = 2024, month = 1, day = 2, hour = 17, minute = 0, second = 0,
              microsecond = 0\<rparr> = ''2024-01-02T17:00:00''"
  by (simp add: format_defs)

section \<open>Facts about the store\<close>


lemma fetch_task_SomeD: "fetch_task st i = Some row \<Longrightarrow> row \<in> set (tasks st) \<and> t_id row = i"
  by (auto simp: fetch_task_def find_Some_iff)

lemma find_append_Some: "find P xs = Some x \<Longrightarrow> find P (xs @ ys) = Some x"
  by (induction xs) auto

lemma find_append_None: "find P xs = None \<Longrightarrow> find P (xs @ ys) = find P ys"
  by (induction xs) auto

lemma le_foldr_max: "x \<in> set ids \<Longrightarrow> x \<le> foldr max ids (0::int)"
  by (induction ids) auto

lemma next_rowid_fresh: "next_rowid ids \<notin> set ids"
  using le_foldr_max [of "next_rowid ids" ids] by (auto simp: next_rowid_def)

lemma t_id_mark [simp]: "t_id (mark_completed now i t) = t_id t"
  by (simp add: mark_completed_def)

lemma t_id_comp_mark [simp]: "t_id \<circ> mark_completed now i = t_id"
  by (rule ext) simp

lemma category_mark [simp]: "category (mark_completed now i t) = category t"
  by (simp add: mark_completed_def)

lemma status_mark_completed:
  "status t = Some ''Completed'' \<Longrightarrow> status (mark_completed now j t) = Some ''Completed''"
  by (simp add: mark_completed_def)

lemma task_ok_mark: "task_ok t \<Longrightarrow> task_ok (mark_completed now i t)"
  by (simp add: task_ok_def mark_completed_def)

lemma find_map_mark:
  "find (\<lambda>t. t_id t = i) (map (mark_completed now j) ts)
     = map_option (mark_completed now j) (find (\<lambda>t. t_id t = i) ts)"
  by (induction ts) auto

lemma tasks_insert_session [simp]: "tasks (insert_session st i a b m) = tasks st"
  by (simp add: insert_session_def)

section \<open>Starting and stopping the timer\<close>

lemma pom_stop_clears:
  "ss_pom_task (snd (pom_stop p st now save)) = None
   \<and> ss_pom_start (snd (pom_stop p st now save)) = None
   \<and> tasks (snd (pom_stop p st now save)) = tasks st"
  by (simp add: pom_stop_def insert_session_def Let_def split: option.splits)




lemma timer_active_ex_timer: "timer_active ex_timer"
  by (simp add: timer_active_def ex_timer_def truthy_int_def truthy_str_def)

text \<open>
  Claim C1, as amended. \<^verbatim>\<open>pom_start\<close> has no guard and raises nothing: whether or not a
  timer is active, the call returns normally and sets the timer state to the given task
  and the current instant, replacing a timer that was active; tasks and sessions are left
  as they were.
\<close>

theorem pom_start_sets_timer:
  "fst (pom_start st now i) = Inr ()
   \<and> ss_pom_task (snd (pom_start st now i)) = Some i
   \<and> ss_pom_start (snd (pom_start st now i)) = Some (now_iso now)
   \<and> tasks (snd (pom_start st now i)) = tasks st
   \<and> work_sessions (snd (pom_start st now i)) = work_sessions st"
  by (simp add: pom_start_def)

text \<open>
  A conflict is not reported: with the timer of task 1 running since 10:00:00, starting a
  timer for task 2 at 10:05:00 returns normally and overwrites the timer state.
\<close>

theorem pom_start_conflict_counterexample:
  "timer_active ex_timer
   \<and> ss_pom_task ex_timer = Some 1
   \<and> ss_pom_start ex_timer = Some ''2024-01-01T10:00:00''
   \<and> pom_start ex_timer (ex_now\<lparr>minute := 5\<rparr>) 2
       = (Inr (), ex_timer\<lparr>ss_pom_task := Some 2, ss_pom_start := Some ''2024-01-01T10:05:00''\<rparr>)
   \<and> snd (pom_start ex_timer (ex_now\<lparr>minute := 5\<rparr>) 2) \<noteq> ex_timer"
  by (simp add: timer_active_ex_timer pom_start_def)
     (simp add: ex_timer_def ex_store_def ex_now_def format_defs)



section \<open>Completion and recurrence\<close>

lemma recur_create_skip:
  assumes "due_at old = None \<or> (\<exists>s. due_at old = Some s \<and> p s = None)"
  shows "recur_create p st now old ty = (Inr (), st)"
  using assms by (auto simp: recur_create_def truthy_str_def)

lemma recur_create_spawn:
  assumes "due_at old = Some s" and "s \<noteq> []" and "p s = Some d"
    and "plus_days d (recur_days ty) = Inr new"
  shows "recur_create p st now old ty
           = (Inr (), st\<lparr>tasks := tasks st @ [successor st now old ty new]\<rparr>)"
  using assms by (simp add: recur_create_def truthy_str_def)

text \<open>
  What \<^verbatim>\<open>recur_create\<close> and \<^verbatim>\<open>complete\<close> can do to the store, whatever the due date and
  the parser: the tasks that were there stay (marked completed where the id matches), at
  most a pending successor is added, and at most one session.
\<close>

lemma recur_create_effect:
  "\<exists>extra. snd (recur_create p st now old ty) = st\<lparr>tasks := tasks st @ extra\<rparr>
     \<and> (\<forall>t\<in>set extra. status t = Some ''Pending'' \<and> completed_at t = None
                         \<and> category t = category old
                         \<and> t_id t = next_rowid (map t_id (tasks st)))"
proof (cases "\<exists>s d new. due_at old = Some s \<and> s \<noteq> [] \<and> p s = Some d
                 \<and> plus_days d (recur_days ty) = Inr new")
  case True
  then obtain s d new where "due_at old = Some s" "s \<noteq> []" "p s = Some d"
    "plus_days d (recur_days ty) = Inr new" by blast
  then have "recur_create p st now old ty
           = (Inr (), st\<lparr>tasks := tasks st @ [successor st now old ty new]\<rparr>)"
    by (rule recur_create_spawn)
  then show ?thesis
    by (intro exI [of _ "[successor st now old ty new]"]) (simp add: successor_def)
next
  case False
  then have "snd (recur_create p st now old ty) = st"
    by (auto simp: recur_create_def truthy_str_def split: option.splits sum.splits)
  then show ?thesis
    by (intro exI [of _ "[]"]) simp
qed

lemma complete_effect:
  assumes "fetch_task st i = Some row"
  shows "\<exists>extra. tasks (snd (complete p st now i mins))
                  = map (mark_completed now i) (tasks st) @ extra
     \<and> (\<forall>t\<in>set extra. status t = Some ''Pending'' \<and> completed_at t = None
                         \<and> category t = category row
                         \<and> t_id t = next_rowid (map t_id (tasks st)))
     \<and> work_sessions (snd (complete p st now i mins))
         = (if truthy_num mins \<and> 0 < the mins
            then work_sessions st @
                 [\<lparr>ws_id = next_rowid (map ws_id (work_sessions st)), task_id = i,
                   start_time = now_iso now, end_time = now_iso now,
                   duration_minutes = the mins\<rparr>]
            else work_sessions st)
     \<and> ss_pom_task (snd (complete p st now i mins)) = ss_pom_task st
     \<and> ss_pom_start (snd (complete p st now i mins)) = ss_pom_start st"
proof -
  define st2 where "st2 =
    (if truthy_num mins \<and> 0 < the mins
     then insert_session (st\<lparr>tasks := map (mark_completed now i) (tasks st)\<rparr>) i
            (now_iso now) (now_iso now) (the mins)
     else st\<lparr>tasks := map (mark_completed now i) (tasks st)\<rparr>)"
  have ts2: "tasks st2 = map (mark_completed now i) (tasks st)"
    by (simp add: st2_def)
  have ws2: "work_sessions st2 = (if truthy_num mins \<and> 0 < the mins
            then work_sessions st @
                 [\<lparr>ws_id = next_rowid (map ws_id (work_sessions st)), task_id = i,
                   start_time = now_iso now, end_time = now_iso now,
                   duration_minutes = the mins\<rparr>]
            else work_sessions st)"
    and pm: "ss_pom_task st2 = ss_pom_task st" "ss_pom_start st2 = ss_pom_start st"
    by (simp_all add: st2_def insert_session_def)
  obtain extra where ex: "snd (recur_create p st2 now row (recurrence row))
       = st2\<lparr>tasks := tasks st2 @ extra\<rparr>"
    and exq: "\<forall>t\<in>set extra. status t = Some ''Pending'' \<and> completed_at t = None
                         \<and> category t = category row
                         \<and> t_id t = next_rowid (map t_id (tasks st2))"
    using recur_create_effect [of p st2 now row "recurrence row"] by blast
  have c: "complete p st now i mins
      = (if recurrence row \<noteq> Some ''None'' then recur_create p st2 now row (recurrence row)
         else (Inr (), st2))"
    unfolding st2_def using assms by (simp add: complete_def Let_def)
  have "snd (complete p st now i mins) = st2\<lparr>tasks := tasks st2 @ extra\<rparr>
        \<or> snd (complete p st now i mins) = st2"
    unfolding c using ex by simp
  then show ?thesis
  proof
    assume "snd (complete p st now i mins) = st2\<lparr>tasks := tasks st2 @ extra\<rparr>"
    then show ?thesis
      using exq by (intro exI [of _ extra]) (simp add: ts2 ws2 pm)
  next
    assume "snd (complete p st now i mins) = st2"
    then show ?thesis
      by (intro exI [of _ "[]"]) (simp add: ts2 ws2 pm)
  qed
qed



text \<open>
  Claim C5. Completing a recurring task whose due date is absent, or is a string the
  parser rejects, succeeds: nothing is raised, the task is marked completed, and the task
  table gets no new row.
\<close>

theorem complete_bad_due_date:
  assumes row: "fetch_task st i = Some row"
    and rec: "recurrence row \<noteq> Some ''None''"
    and due: "due_at row = None \<or> (\<exists>s. due_at row = Some s \<and> p s = None)"
  shows "fst (complete p st now i mins) = Inr ()
         \<and> tasks (snd (complete p st now i mins)) = map (mark_completed now i) (tasks st)
         \<and> status_of (snd (complete p st now i mins)) i = Some (Some ''Completed'')"
proof -
  have skip: "\<And>s. recur_create p s now row (recurrence row) = (Inr (), s)"
    using due by (rule recur_create_skip)
  have res: "fst (complete p st now i mins) = Inr ()"
    and ts: "tasks (snd (complete p st now i mins)) = map (mark_completed now i) (tasks st)"
    using row rec by (simp_all add: complete_def skip Let_def)
  have "status_of (snd (complete p st now i mins)) i = Some (Some ''Completed'')"
    using row fetch_task_SomeD [OF row]
    by (simp add: status_of_def fetch_task_def ts find_map_mark mark_completed_def)
  with res ts show ?thesis by simp
qed

text \<open>
  A run: task 1 recurs weekly and its due date is the string \<^verbatim>\<open>next week\<close>. It is
  completed at 10:00:00; the table still has one row, the completed task.
\<close>

theorem complete_bad_due_date_witness:
  "fetch_task (ex_store (Some ''next week'') ''Weekly'') 1
     = Some (ex_task (Some ''next week'') ''Weekly'')
   \<and> fromisoformat_seconds ''next week'' = None
   \<and> fst (complete fromisoformat_seconds (ex_store (Some ''next week'') ''Weekly'') ex_now 1 None)
       = Inr ()
   \<and> tasks (snd (complete fromisoformat_seconds (ex_store (Some ''next week'') ''Weekly'')
                    ex_now 1 None))
       = [(ex_task (Some ''next week'') ''Weekly'')
            \<lparr>completed_at := Some ''2024-01-01T10:00:00'', status := Some ''Completed''\<rparr>]"
proof -
  have h1: "fetch_task (ex_store (Some ''next week'') ''Weekly'') 1
              = Some (ex_task (Some ''next week'') ''Weekly'')"
    by (simp add: fetch_task_def ex_store_def ex_task_def)
  have h2: "recurrence (ex_task (Some ''next week'') ''Weekly'') \<noteq> Some ''None''"
    by (simp add: ex_task_def)
  have h3: "due_at (ex_task (Some ''next week'') ''Weekly'') = None
            \<or> (\<exists>s. due_at (ex_task (Some ''next week'') ''Weekly'') = Some s
                    \<and> fromisoformat_seconds s = None)"
    by (simp add: ex_task_def parse_next_week)
  from complete_bad_due_date [OF h1 h2 h3, of ex_now None] h1 parse_next_week
  show ?thesis
    by (simp add: ex_store_def mark_completed_def now_iso_ex_now) (simp add: ex_task_def)
qed

text \<open>
  Claim C4, as amended. Let a task recur daily or weekly, let its due date be a string
  that the parser reads as the instant \<open>d\<close>, and let \<open>d\<close> plus 1 day (daily) or 7 days
  (weekly) be an instant \<open>new\<close> of the calendar, that is, not after 9999-12-31. Then
  completing the task raises nothing and adds exactly one task to the table: it has a
  fresh id, the title, description, category, priority, predicted minutes and recurrence
  of the completed task, the due date \<open>new\<close>, the status \<^verbatim>\<open>Pending\<close>, the creation time
  now and no completion time.
\<close>

theorem complete_spawns_successor:
  assumes row: "fetch_task st i = Some row"
    and due: "due_at row = Some s" "s \<noteq> []" "p s = Some d"
    and rec: "recurrence row = Some ''Daily'' \<and> n = 1 \<or> recurrence row = Some ''Weekly'' \<and> n = 7"
    and new: "plus_days d n = Inr new"
  shows "\<exists>t. fst (complete p st now i mins) = Inr ()
           \<and> tasks (snd (complete p st now i mins)) = map (mark_completed now i) (tasks st) @ [t]
           \<and> t_id t \<notin> set (map t_id (tasks st))
           \<and> title t = title row \<and> description t = description row
           \<and> category t = category row \<and> priority t = priority row
           \<and> predicted_minutes t = predicted_minutes row \<and> recurrence t = recurrence row
           \<and> due_at t = Some (isoformat new)
           \<and> status t = Some ''Pending'' \<and> created_at t = Some (now_iso now)
           \<and> completed_at t = None"
proof -
  define st2 where "st2 =
    (if truthy_num mins \<and> 0 < the mins
     then insert_session (st\<lparr>tasks := map (mark_completed now i) (tasks st)\<rparr>) i
            (now_iso now) (now_iso now) (the mins)
     else st\<lparr>tasks := map (mark_completed now i) (tasks st)\<rparr>)"
  have ts2: "tasks st2 = map (mark_completed now i) (tasks st)"
    by (simp add: st2_def)
  from rec have days: "recur_days (recurrence row) = n"
    and notnone: "recurrence row \<noteq> Some ''None''"
    by (auto simp: recur_days_def)
  let ?t = "successor st2 now row (recurrence row) new"
  have "complete p st now i mins = recur_create p st2 now row (recurrence row)"
    using row notnone by (simp add: complete_def st2_def Let_def)
  also have "\<dots> = (Inr (), st2\<lparr>tasks := tasks st2 @ [?t]\<rparr>)"
    using due new days by (simp add: recur_create_spawn)
  finally have c: "complete p st now i mins = (Inr (), st2\<lparr>tasks := tasks st2 @ [?t]\<rparr>)" .
  have fresh: "t_id ?t \<notin> set (map t_id (tasks st))"
    using next_rowid_fresh [of "map t_id (tasks st)"] by (simp add: successor_def ts2)
  show ?thesis
  proof (rule exI [of _ ?t], intro conjI)
    show "t_id ?t \<notin> set (map t_id (tasks st))" by (rule fresh)
  qed (simp_all add: c ts2 successor_def)
qed

text \<open>
  A run: task 1 recurs daily and is due 2024-01-01T17:00:00. Completed at 10:00:00,
  it gets the successor 2, pending, due 2024-01-02T17:00:00.
\<close>

theorem complete_spawns_successor_witness:
  "fetch_task (ex_store (Some ''2024-01-01T17:00:00'') ''Daily'') 1
     = Some (ex_task (Some ''2024-01-01T17:00:00'') ''Daily'')
   \<and> complete fromisoformat_seconds (ex_store (Some ''2024-01-01T17:00:00'') ''Daily'')
        ex_now 1 None
       = (Inr (),
          \<lparr>tasks =
             [(ex_task (Some ''2024-01-01T17:00:00'') ''Daily'')
                \<lparr>completed_at := Some ''2024-01-01T10:00:00'', status := Some ''Completed''\<rparr>,
              (ex_task (Some ''2024-01-02T17:00:00'') ''Daily'')\<lparr>t_id := 2\<rparr>],
           work_sessions = [], ss_pom_task = None, ss_pom_start = None\<rparr>)"
proof -
  let ?st = "ex_store (Some ''2024-01-01T17:00:00'') ''Daily''"
  let ?row = "ex_task (Some ''2024-01-01T17:00:00'') ''Daily''"
  have h1: "fetch_task ?st 1 = Some ?row"
    by (simp add: fetch_task_def ex_store_def ex_task_def)
  have h2: "due_at ?row = Some ''2024-01-01T17:00:00''" and h3: "''2024-01-01T17:00:00'' \<noteq> []"
    by (simp_all add: ex_task_def)
  have h5: "recurrence ?row = Some ''Daily'' \<and> (1::nat) = 1
            \<or> recurrence ?row = Some ''Weekly'' \<and> (1::nat) = 7"
    by (simp add: ex_task_def)
  from complete_spawns_successor [where p = fromisoformat_seconds and now = ex_now
      and mins = None, OF h1 h2 h3 parse_2024_01_01 h5 next_day_2024_01_01]
  obtain t where r: "fst (complete fromisoformat_seconds ?st ex_now 1 None) = Inr ()"
    and ts: "tasks (snd (complete fromisoformat_seconds ?st ex_now 1 None))
               = map (mark_completed ex_now 1) (tasks ?st) @ [t]"
    by blast
  have "complete fromisoformat_seconds ?st ex_now 1 None
       = (Inr (),
          \<lparr>tasks =
             [?row\<lparr>completed_at := Some ''2024-01-01T10:00:00'', status := Some ''Completed''\<rparr>,
              (ex_task (Some ''2024-01-02T17:00:00'') ''Daily'')\<lparr>t_id := 2\<rparr>],
           work_sessions = [], ss_pom_task = None, ss_pom_start = None\<rparr>)"
    using r ts
    by (simp add: complete_def fetch_task_def ex_store_def ex_task_def mark_completed_def
      truthy_num_def recur_create_def truthy_str_def parse_2024_01_01 recur_days_def
      successor_def ex_now_def next_rowid_def calendar_defs format_defs)
  with h1 show ?thesis
    by simp
qed

text \<open>
  Without the bound the successor is not created. On the last day of the calendar, task 1
  recurs daily and is due 9999-12-31T17:00:00, which the parser reads. The addition of one day raises
  \<^verbatim>\<open>OverflowError\<close>, outside the \<^verbatim>\<open>try\<close>; the task has been marked completed by then,
  and no successor is created.
\<close>

theorem complete_spawn_overflow_counterexample:
  "fetch_task (ex_store (Some ''9999-12-31T17:00:00'') ''Daily'') 1
     = Some (ex_task (Some ''9999-12-31T17:00:00'') ''Daily'')
   \<and> fromisoformat_seconds ''9999-12-31T17:00:00''
       = Some \<lparr>year = 9999, month = 12, day = 31, hour = 17, minute = 0, second = 0,
                microsecond = 0\<rparr>
   \<and> complete fromisoformat_seconds (ex_store (Some ''9999-12-31T17:00:00'') ''Daily'')
        ex_now 1 None
       = (Inl OverflowError,
          \<lparr>tasks =
             [(ex_task (Some ''9999-12-31T17:00:00'') ''Daily'')
                \<lparr>completed_at := Some ''2024-01-01T10:00:00'', status := Some ''Completed''\<rparr>],
           work_sessions = [], ss_pom_task = None, ss_pom_start = None\<rparr>)"
  by (simp add: complete_def fetch_task_def ex_store_def ex_task_def mark_completed_def
      truthy_num_def recur_create_def truthy_str_def parse_9999_12_31 recur_days_def
      ex_now_def calendar_defs format_defs)

section \<open>Time prediction\<close>

lemma get_sessions_alt:
  "get_sessions st =
     map (\<lambda>ws. (ws, map_option title (fetch_task st (task_id ws)), owner_category st ws))
       (work_sessions st)"
  by (simp add: get_sessions_def owner_category_def split: option.splits)

lemma map_filter_map: "List.map_filter f (map g xs) = List.map_filter (f \<circ> g) xs"
  by (simp add: List.map_filter_def filter_map comp_def)

lemma set_map_filter: "set (List.map_filter f xs) = {y. \<exists>x\<in>set xs. f x = Some y}"
  by (force simp: List.map_filter_def)


lemma groupby_get_sessions:
  "groupby (\<lambda>r. snd (snd r)) (\<lambda>r. duration_minutes (fst r)) (get_sessions st)
     = map (\<lambda>k. (k, category_durations st k)) (sort (history_categories st))"
  by (simp add: groupby_def get_sessions_alt map_filter_map filter_map comp_def
      category_durations_def history_categories_def)

lemma avg_time_category_alt:
  "avg_time_category st
     = map (\<lambda>k. (k, mean (category_durations st k))) (sort (history_categories st))"
proof (cases "work_sessions st = []")
  case True
  then show ?thesis
    by (simp add: avg_time_category_def get_sessions_def history_categories_def
        List.map_filter_def)
next
  case False
  then have "get_sessions st \<noteq> []"
    by (simp add: get_sessions_def)
  then show ?thesis
    by (simp add: avg_time_category_def groupby_get_sessions comp_def)
qed

lemma history_categories_iff:
  "C \<in> set (history_categories st) \<longleftrightarrow> category_durations st C \<noteq> []"
  by (auto simp: history_categories_def category_durations_def set_map_filter filter_empty_conv)

lemma map_of_graph:
  "map_of (map (\<lambda>k. (k, f k)) ks) k = (if k \<in> set ks then Some (f k) else None)"
  by (induction ks) auto

lemma sum_list_map_insort:
  fixes f :: "'a::linorder \<Rightarrow> rat"
  shows "sum_list (map f (insort x xs)) = f x + sum_list (map f xs)"
  by (induction xs) auto

lemma sum_list_map_sort:
  fixes f :: "'a::linorder \<Rightarrow> rat"
  shows "sum_list (map f (sort xs)) = sum_list (map f xs)"
  by (induction xs) (auto simp: sum_list_map_insort)

lemma mean_map_sort: "mean (map f (sort xs)) = mean (map f xs)"
  by (simp add: mean_def sum_list_map_sort)

lemma predict_time_cases:
  "predict_time st C =
     (if category_durations st C \<noteq> [] then round1 (mean (category_durations st C))
      else if history_categories st \<noteq> []
           then round1 (mean (map (\<lambda>c. mean (category_durations st c)) (history_categories st)))
           else 30)"
proof -
  have "map snd (avg_time_category st)
          = map (\<lambda>c. mean (category_durations st c)) (sort (history_categories st))"
    by (simp add: avg_time_category_alt comp_def)
  then have m: "mean (map snd (avg_time_category st))
          = mean (map (\<lambda>c. mean (category_durations st c)) (history_categories st))"
    by (simp add: mean_map_sort)
  have l: "map_of (avg_time_category st) C
          = (if category_durations st C \<noteq> [] then Some (mean (category_durations st C)) else None)"
    by (simp add: avg_time_category_alt map_of_graph history_categories_iff)
  have e: "avg_time_category st \<noteq> [] \<longleftrightarrow> history_categories st \<noteq> []"
    by (simp add: avg_time_category_alt) (metis set_sort set_empty)
  show ?thesis
    by (simp add: predict_time_def Let_def l m e)
qed

lemma predict_time_no_sessions: "work_sessions st = [] \<Longrightarrow> predict_time st C = 30"
  by (simp add: predict_time_cases category_durations_def history_categories_def
      List.map_filter_def)

lemma round_half_even_of_int: "round_half_even (of_int k) = k"
  by (simp add: round_half_even_def)

lemma round1_integer: "round1 (of_int k) = of_int k"
proof -
  have "(of_int k :: rat) * 10 = of_int (k * 10)"
    by simp
  then have "round_half_even (of_int k * 10) = k * 10"
    by (simp only: round_half_even_of_int)
  then show ?thesis
    by (simp add: round1_def)
qed

text \<open>The history of the concrete store: 300 and 180 minutes of writing, 120 of coding.\<close>

lemma owner_category_ex_history:
  "map (owner_category ex_history) (work_sessions ex_history)
     = [Some ''Writing'', Some ''Writing'', Some ''Code'']"
  by (simp add: owner_category_def fetch_task_def ex_history_def ex_task_def)

lemma category_durations_ex_history:
  "category_durations ex_history ''Writing'' = [300, 180]"
  "category_durations ex_history ''Code'' = [120]"
  "category_durations ex_history ''Research'' = []"
  "category_durations ex_history ''   '' = []"
  by (simp_all add: category_durations_def owner_category_def fetch_task_def ex_history_def
      ex_task_def)

lemma history_categories_ex_history: "history_categories ex_history = [''Writing'', ''Code'']"
  using owner_category_ex_history
  by (simp add: history_categories_def List.map_filter_def ex_history_def)



section \<open>Creating a task, and the round trip\<close>

lemma new_task_ex:
  "new_task empty_store ex_now ''Report'' ''Writing'' ''High'' (2024, 1, 1) (17, 0, 0, 0)
      ''Daily'' []
     = (Inr (), ex_store (Some ''2024-01-01T17:00:00'') ''Daily'')"
  by (simp add: new_task_def empty_store_def ex_store_def ex_task_def strip_def isspace_def
      predict_time_def avg_time_category_def get_sessions_def next_rowid_def ex_now_def
      combine_def format_defs)

lemma strip_Writing: "strip ''Writing'' = ''Writing''"
  by (simp add: strip_def isspace_def)

text \<open>
  Claim C10. A task created with an empty or whitespace-only category (and a non-blank
  title, without which nothing is created) gets 30 predicted minutes, whatever sessions
  the store holds: the form calls \<^verbatim>\<open>predict_time\<close> only when the stripped category is not
  empty. Its category is stored as the empty string.
\<close>

theorem new_task_blank_category:
  assumes "strip cat = []" and "strip title_in \<noteq> []"
  shows "\<exists>t. new_task st now title_in cat prio d tm recur desc
               = (Inr (), st\<lparr>tasks := tasks st @ [t]\<rparr>)
             \<and> category t = Some [] \<and> predicted_minutes t = Some 30"
  using assms by (cases "desc = []") (fastforce simp: new_task_def)+

text \<open>
  A run on the store with history: a task with the category of three spaces gets
  30 minutes, although \<^verbatim>\<open>predict_time\<close> on that label would answer 180.
\<close>

theorem new_task_blank_category_witness:
  "strip ''   '' = [] \<and> strip ''Plan'' \<noteq> []
   \<and> predict_time ex_history ''   '' = 180
   \<and> map predicted_minutes
       (tasks (snd (new_task ex_history ex_now ''Plan'' ''   '' ''Low'' (2024, 1, 3)
                      (17, 0, 0, 0) ''None'' [])))
       = [Some 30, Some 30, Some 30]"
proof -
  have h1: "strip ''   '' = []" and h2: "strip ''Plan'' \<noteq> []"
    by (simp_all add: strip_def isspace_def)
  have p: "predict_time ex_history ''   '' = 180"
    using round1_integer [of 180]
    by (simp add: predict_time_cases category_durations_ex_history
        history_categories_ex_history mean_def)
  from new_task_blank_category [OF h1 h2, of ex_history ex_now "''Low''" "(2024, 1, 3)"
      "(17, 0, 0, 0)" "''None''" "[]"]
  obtain t where "new_task ex_history ex_now ''Plan'' ''   '' ''Low'' (2024, 1, 3)
        (17, 0, 0, 0) ''None'' [] = (Inr (), ex_history\<lparr>tasks := tasks ex_history @ [t]\<rparr>)"
    and "predicted_minutes t = Some 30"
    by blast
  then have "map predicted_minutes
       (tasks (snd (new_task ex_history ex_now ''Plan'' ''   '' ''Low'' (2024, 1, 3)
                      (17, 0, 0, 0) ''None'' [])))
       = [Some 30, Some 30, Some 30]"
    by (simp add: ex_history_def ex_task_def)
  with h1 h2 p show ?thesis
    by simp
qed

text \<open>
  Claim C9. In a store without sessions, a task created with the category \<^verbatim>\<open>Writing\<close>
  gets 30 predicted minutes; after that task is completed with 60 logged minutes,
  \<^verbatim>\<open>predict_time\<close> answers 60 for \<^verbatim>\<open>Writing\<close>. This holds for every store without
  sessions, every non-blank title, every other input of the form, and every parser.
\<close>

theorem prediction_round_trip:
  assumes nos: "work_sessions st = []" and ti: "strip ti \<noteq> []"
  shows "\<exists>t. tasks (snd (new_task st now ti ''Writing'' prio d tm recur desc)) = tasks st @ [t]
           \<and> category t = Some ''Writing'' \<and> predicted_minutes t = Some 30
           \<and> predict_time
               (snd (complete p (snd (new_task st now ti ''Writing'' prio d tm recur desc))
                       now' (t_id t) (Some 60)))
               ''Writing'' = 60"
proof -
  define t where "t =
    \<lparr>t_id = next_rowid (map t_id (tasks st)), title = strip ti,
      description = Some (if desc \<noteq> [] then strip desc else []),
      category = Some ''Writing'', priority = Some prio, status = Some ''Pending'',
      created_at = Some (now_iso now), due_at = Some (isoformat (combine d tm)),
      completed_at = None, predicted_minutes = Some 30, recurrence = Some recur\<rparr>"
  define st1 where "st1 = st\<lparr>tasks := tasks st @ [t]\<rparr>"
  define st2 where "st2 = snd (complete p st1 now' (t_id t) (Some 60))"
  have n: "snd (new_task st now ti ''Writing'' prio d tm recur desc) = st1"
    using ti nos
    by (simp add: new_task_def strip_Writing predict_time_no_sessions st1_def t_def Let_def)
  have "find (\<lambda>u. t_id u = t_id t) (tasks st) = None"
    using next_rowid_fresh [of "map t_id (tasks st)"]
    by (force simp: find_None_iff t_def)
  then have f1: "fetch_task st1 (t_id t) = Some t"
    by (simp add: fetch_task_def st1_def find_append_None)
  from complete_effect [OF f1, of p now' "Some 60"] obtain extra where
    ts2: "tasks st2 = map (mark_completed now' (t_id t)) (tasks st1) @ extra"
    and ws2: "work_sessions st2 =
        [\<lparr>ws_id = next_rowid (map ws_id (work_sessions st1)), task_id = t_id t,
          start_time = now_iso now', end_time = now_iso now', duration_minutes = 60\<rparr>]"
    unfolding st2_def by (auto simp: truthy_num_def st1_def nos)
  have "find (\<lambda>u. t_id u = t_id t) (map (mark_completed now' (t_id t)) (tasks st1))
          = Some (mark_completed now' (t_id t) t)"
    using f1 by (simp add: find_map_mark fetch_task_def)
  then have f2: "fetch_task st2 (t_id t) = Some (mark_completed now' (t_id t) t)"
    by (simp add: fetch_task_def ts2 find_append_Some)
  have "category_durations st2 ''Writing'' = [60]"
    by (simp add: category_durations_def owner_category_def ws2 f2) (simp add: t_def)
  then have "predict_time st2 ''Writing'' = 60"
    using round1_integer [of 60] by (simp add: predict_time_cases mean_def)
  then show ?thesis
    unfolding st2_def n [symmetric]
    by (intro exI [of _ t]) (simp add: n st1_def, simp add: t_def)
qed

text \<open>
  A run from the empty store: the task \<^verbatim>\<open>Report\<close> of category \<^verbatim>\<open>Writing\<close> is
  created with 30 predicted minutes and gets the id 1; after it is completed with 60
  minutes the prediction for \<^verbatim>\<open>Writing\<close> is 60.
\<close>

theorem prediction_round_trip_witness:
  "work_sessions empty_store = [] \<and> strip ''Report'' \<noteq> []
   \<and> tasks (snd (new_task empty_store ex_now ''Report'' ''Writing'' ''High'' (2024, 1, 1)
                    (17, 0, 0, 0) ''Daily'' []))
       = [ex_task (Some ''2024-01-01T17:00:00'') ''Daily'']
   \<and> predicted_minutes (ex_task (Some ''2024-01-01T17:00:00'') ''Daily'') = Some 30
   \<and> predict_time
       (snd (complete fromisoformat_seconds
               (snd (new_task empty_store ex_now ''Report'' ''Writing'' ''High'' (2024, 1, 1)
                       (17, 0, 0, 0) ''Daily'' []))
               ex_now 1 (Some 60)))
       ''Writing'' = 60"
proof -
  have h1: "work_sessions empty_store = []"
    by (simp add: empty_store_def)
  have h2: "strip ''Report'' \<noteq> []"
    by (simp add: strip_def isspace_def)
  have ts: "tasks (snd (new_task empty_store ex_now ''Report'' ''Writing'' ''High'' (2024, 1, 1)
                    (17, 0, 0, 0) ''Daily'' []))
       = [ex_task (Some ''2024-01-01T17:00:00'') ''Daily'']"
    unfolding new_task_ex by (simp add: ex_store_def)
  from prediction_round_trip [OF h1 h2, of ex_now "''High''" "(2024, 1, 1)" "(17, 0, 0, 0)"
      "''Daily''" "[]" fromisoformat_seconds ex_now]
  obtain t where a: "tasks (snd (new_task empty_store ex_now ''Report'' ''Writing'' ''High''
        (2024, 1, 1) (17, 0, 0, 0) ''Daily'' [])) = tasks empty_store @ [t]"
    and b: "predict_time
       (snd (complete fromisoformat_seconds
               (snd (new_task empty_store ex_now ''Report'' ''Writing'' ''High'' (2024, 1, 1)
                       (17, 0, 0, 0) ''Daily'' []))
               ex_now (t_id t) (Some 60)))
       ''Writing'' = 60"
    by blast
  have "t = ex_task (Some ''2024-01-01T17:00:00'') ''Daily''"
    using a unfolding ts by (simp add: empty_store_def)
  then have tid: "t_id t = 1"
    by (simp add: ex_task_def)
  have p: "predicted_minutes (ex_task (Some ''2024-01-01T17:00:00'') ''Daily'') = Some 30"
    by (simp add: ex_task_def)
  from h1 h2 ts p b [unfolded tid] show ?thesis
    by (intro conjI)
qed

section \<open>Daily scores\<close>











section \<open>Invariants of runs\<close>

lemma exec_preserves_ok:
  assumes "\<forall>t\<in>set (tasks st). task_ok t"
  shows "\<forall>t\<in>set (tasks (snd (exec p st now a))). task_ok t"
proof (cases a)
  case (NewTask ti cat prio d tm recur desc)
  then show ?thesis
    using assms by (auto simp: new_task_def task_ok_def Let_def)
next
  case (Complete i mins)
  show ?thesis
  proof (cases "fetch_task st i")
    case None
    then show ?thesis
      using assms Complete by (simp add: complete_def)
  next
    case (Some row)
    from complete_effect [OF Some, of p now mins] obtain extra where
      "tasks (snd (complete p st now i mins)) = map (mark_completed now i) (tasks st) @ extra"
      and "\<forall>t\<in>set extra. status t = Some ''Pending'' \<and> completed_at t = None"
      by blast
    then show ?thesis
      using assms Complete by (auto simp: task_ok_mark) (simp add: task_ok_def)
  qed
next
  case (PomStart i)
  then show ?thesis
    using assms by (simp add: pom_start_def)
next
  case (PomStop save)
  then show ?thesis
    using assms by (simp add: pom_stop_clears)
qed

lemma exec_keeps_completed:
  assumes "status_of st i = Some (Some ''Completed'')"
  shows "status_of (snd (exec p st now a)) i = Some (Some ''Completed'')"
proof -
  from assms obtain t where t: "find (\<lambda>t. t_id t = i) (tasks st) = Some t"
    and c: "status t = Some ''Completed''"
    by (auto simp: status_of_def fetch_task_def)
  show ?thesis
  proof (cases a)
    case (NewTask ti cat prio d tm recur desc)
    then show ?thesis
      using assms t by (simp add: new_task_def status_of_def fetch_task_def Let_def
          find_append_Some)
  next
    case (Complete j mins)
    show ?thesis
    proof (cases "fetch_task st j")
      case None
      then show ?thesis
        using assms Complete by (simp add: complete_def)
    next
      case (Some row)
      from complete_effect [OF Some, of p now mins] obtain extra where
        "tasks (snd (complete p st now j mins)) = map (mark_completed now j) (tasks st) @ extra"
        by blast
      then show ?thesis
        using Complete t c
        by (simp add: status_of_def fetch_task_def find_map_mark find_append_Some
            status_mark_completed)
    qed
  next
    case (PomStart j)
    then show ?thesis
      using assms by (simp add: pom_start_def status_of_def fetch_task_def)
  next
    case (PomStop save)
    then show ?thesis
      using assms by (simp add: pom_stop_clears status_of_def fetch_task_def)
  qed
qed

lemma run_preserves_ok:
  "\<forall>t\<in>set (tasks st). task_ok t \<Longrightarrow> \<forall>t\<in>set (tasks (run p st acts)). task_ok t"
proof (induction acts arbitrary: st)
  case Nil
  then show ?case by simp
next
  case (Cons x acts)
  obtain now a where x: "x = (now, a)" by (cases x)
  from Cons.prems have "\<forall>t\<in>set (tasks (snd (exec p st now a))). task_ok t"
    by (rule exec_preserves_ok)
  then show ?case
    unfolding x by (simp add: Cons.IH)
qed

lemma run_keeps_completed:
  "status_of st i = Some (Some ''Completed'')
     \<Longrightarrow> status_of (run p st acts) i = Some (Some ''Completed'')"
proof (induction acts arbitrary: st)
  case Nil
  then show ?case by simp
next
  case (Cons x acts)
  obtain now a where x: "x = (now, a)" by (cases x)
  from Cons.prems have "status_of (snd (exec p st now a)) i = Some (Some ''Completed'')"
    by (rule exec_keeps_completed)
  then show ?case
    unfolding x by (simp add: Cons.IH)
qed

text \<open>Every session the engine writes has a positive duration.\<close>

lemma exec_sessions_positive:
  assumes "\<forall>ws\<in>set (work_sessions st). 0 < duration_minutes ws"
  shows "\<forall>ws\<in>set (work_sessions (snd (exec p st now a))). 0 < duration_minutes ws"
proof (cases a)
  case (NewTask ti cat prio d tm recur desc)
  then show ?thesis
    using assms by (simp add: new_task_def Let_def)
next
  case (Complete i mins)
  show ?thesis
  proof (cases "fetch_task st i")
    case None
    then show ?thesis
      using assms Complete by (simp add: complete_def)
  next
    case (Some row)
    from complete_effect [OF Some, of p now mins]
    have "work_sessions (snd (complete p st now i mins))
         = (if truthy_num mins \<and> 0 < the mins
            then work_sessions st @
                 [\<lparr>ws_id = next_rowid (map ws_id (work_sessions st)), task_id = i,
                   start_time = now_iso now, end_time = now_iso now,
                   duration_minutes = the mins\<rparr>]
            else work_sessions st)"
      by blast
    then show ?thesis
      using assms Complete by (auto split: if_splits)
  qed
next
  case (PomStart i)
  then show ?thesis
    using assms by (simp add: pom_start_def)
next
  case (PomStop save)
  then show ?thesis
    using assms
    by (auto simp: pom_stop_def insert_session_def Let_def split: option.splits)
qed

lemma run_sessions_positive:
  "\<forall>ws\<in>set (work_sessions st). 0 < duration_minutes ws
     \<Longrightarrow> \<forall>ws\<in>set (work_sessions (run p st acts)). 0 < duration_minutes ws"
proof (induction acts arbitrary: st)
  case Nil
  then show ?case by simp
next
  case (Cons x acts)
  obtain now a where x: "x = (now, a)" by (cases x)
  from Cons.prems
  have "\<forall>ws\<in>set (work_sessions (snd (exec p st now a))). 0 < duration_minutes ws"
    by (rule exec_sessions_positive)
  then show ?case
    unfolding x by (simp add: Cons.IH)
qed

text \<open>
  Claim C8. In every store reached from the empty one by any sequence of calls of the
  engine (task creation, completion, timer start and stop, with any arguments, failing or
  not), every task has the status \<^verbatim>\<open>Pending\<close> or \<^verbatim>\<open>Completed\<close>, and has a completion time
  exactly when it is \<^verbatim>\<open>Completed\<close>. A task that is \<^verbatim>\<open>Completed\<close> stays so under every
  further sequence of calls, so a task goes from \<^verbatim>\<open>Pending\<close> to \<^verbatim>\<open>Completed\<close> at most once.
\<close>

theorem status_invariant:
  "(\<forall>t\<in>set (tasks (run p empty_store acts)).
       (status t = Some ''Pending'' \<or> status t = Some ''Completed'')
       \<and> (completed_at t \<noteq> None \<longleftrightarrow> status t = Some ''Completed''))
   \<and> (\<forall>i more. status_of (run p empty_store acts) i = Some (Some ''Completed'')
         \<longrightarrow> status_of (run p (run p empty_store acts) more) i = Some (Some ''Completed''))"
proof -
  have "\<forall>t\<in>set (tasks empty_store). task_ok t"
    by (simp add: empty_store_def)
  then have "\<forall>t\<in>set (tasks (run p empty_store acts)). task_ok t"
    by (rule run_preserves_ok)
  then show ?thesis
    by (simp add: task_ok_def run_keeps_completed)
qed

text \<open>
  A run: the daily task \<^verbatim>\<open>Report\<close> is created and completed. The store then holds
  the completed task 1, with its completion time, and its pending successor 2, without
  one; completing task 1 again, with 5 minutes, leaves it completed.
\<close>

theorem status_invariant_witness:
  "run fromisoformat_seconds empty_store
     [(ex_now, NewTask ''Report'' ''Writing'' ''High'' (2024, 1, 1) (17, 0, 0, 0) ''Daily'' []),
      (ex_now, Complete 1 None)]
     = \<lparr>tasks =
          [(ex_task (Some ''2024-01-01T17:00:00'') ''Daily'')
             \<lparr>completed_at := Some ''2024-01-01T10:00:00'', status := Some ''Completed''\<rparr>,
           (ex_task (Some ''2024-01-02T17:00:00'') ''Daily'')\<lparr>t_id := 2\<rparr>],
        work_sessions = [], ss_pom_task = None, ss_pom_start = None\<rparr>
   \<and> status_of
       (run fromisoformat_seconds
          (run fromisoformat_seconds empty_store
             [(ex_now, NewTask ''Report'' ''Writing'' ''High'' (2024, 1, 1) (17, 0, 0, 0)
                         ''Daily'' []),
              (ex_now, Complete 1 None)])
          [(ex_now\<lparr>hour := 11\<rparr>, Complete 1 (Some 5))]) 1
       = Some (Some ''Completed'')"
proof -
  let ?acts = "[(ex_now, NewTask ''Report'' ''Writing'' ''High'' (2024, 1, 1) (17, 0, 0, 0)
                           ''Daily'' []),
                (ex_now, Complete 1 None)]"
  let ?st = "\<lparr>tasks =
          [(ex_task (Some ''2024-01-01T17:00:00'') ''Daily'')
             \<lparr>completed_at := Some ''2024-01-01T10:00:00'', status := Some ''Completed''\<rparr>,
           (ex_task (Some ''2024-01-02T17:00:00'') ''Daily'')\<lparr>t_id := 2\<rparr>],
        work_sessions = [], ss_pom_task = None, ss_pom_start = None\<rparr>"
  have c: "complete fromisoformat_seconds (ex_store (Some ''2024-01-01T17:00:00'') ''Daily'')
             ex_now 1 None = (Inr (), ?st)"
    by (simp add: complete_def fetch_task_def ex_store_def ex_task_def mark_completed_def
      truthy_num_def recur_create_def truthy_str_def parse_2024_01_01 recur_days_def
      successor_def ex_now_def next_rowid_def calendar_defs format_defs)
  have r: "run fromisoformat_seconds empty_store ?acts = ?st"
    unfolding run.simps exec.simps new_task_ex snd_conv c ..
  have s: "status_of ?st 1 = Some (Some ''Completed'')"
    by (simp add: status_of_def fetch_task_def ex_task_def)
  from status_invariant [of fromisoformat_seconds ?acts] s
  have "status_of (run fromisoformat_seconds (run fromisoformat_seconds empty_store ?acts)
           [(ex_now\<lparr>hour := 11\<rparr>, Complete 1 (Some 5))]) 1 = Some (Some ''Completed'')"
    unfolding r by blast
  with r show ?thesis
    by (intro conjI)
qed

section \<open>The timestamps the program writes are read back\<close>

lemma digit_val_digit_char: "n < 10 \<Longrightarrow> digit_val (digit_char n) = Some n"
proof -
  assume "n < 10"
  then have "n \<in> {0, 1, 2, 3, 4, 5, 6, 7, 8, 9}"
    by auto
  then show ?thesis
    by (auto simp: digit_val_def digit_char_def)
qed

lemma parse_digits_append_digit:
  "n < 10 \<Longrightarrow> parse_digits acc (cs @ [digit_char n])
      = map_option (\<lambda>v. v * 10 + n) (parse_digits acc cs)"
  by (induction cs arbitrary: acc) (auto simp: digit_val_digit_char split: option.splits)

lemma parse_digits_decimal: "parse_digits 0 (decimal n) = Some n"
proof (induction n rule: decimal.induct)
  case (1 n)
  show ?case
  proof (cases "n < 10")
    case True
    then show ?thesis
      by (simp add: decimal_lt digit_val_digit_char)
  next
    case False
    then have "parse_digits 0 (decimal (n div 10)) = Some (n div 10)"
      by (rule "1.IH")
    then show ?thesis
      using False by (simp add: decimal_ge parse_digits_append_digit)
  qed
qed

lemma parse_digits_zeros:
  "parse_digits 0 (replicate k CHR ''0'' @ cs) = parse_digits 0 cs"
  by (induction k) (simp_all add: digit_val_def)

lemma length_decimal: "n < 10 ^ w \<Longrightarrow> 0 < w \<Longrightarrow> length (decimal n) \<le> w"
proof (induction n arbitrary: w rule: decimal.induct)
  case (1 n)
  show ?case
  proof (cases "n < 10")
    case True
    then show ?thesis
      using "1.prems" by (simp add: decimal_lt)
  next
    case False
    with "1.prems" obtain v where w: "w = Suc v"
      by (cases w) auto
    from False "1.prems" have "0 < v"
      by (cases v) (auto simp: w)
    moreover from "1.prems" have "n div 10 < 10 ^ v"
      by (simp add: w less_mult_imp_div_less mult.commute)
    ultimately have "length (decimal (n div 10)) \<le> v"
      using False by (intro "1.IH")
    then show ?thesis
      using False by (simp add: decimal_ge w)
  qed
qed

lemma zfill_field:
  assumes "n < 10 ^ w" and "0 < w"
  shows "length (zfill w n) = w" and "parse_digits 0 (zfill w n) = Some n"
  using length_decimal [OF assms]
  by (simp_all add: zfill_def parse_digits_zeros parse_digits_decimal)

text \<open>
  \<^verbatim>\<open>now_iso\<close> writes a valid instant as 19 characters that the parser reads as the same
  instant, without its microseconds.
\<close>

lemma fromisoformat_now_iso:
  assumes "valid_datetime d"
  shows "fromisoformat_seconds (now_iso d) = Some (d\<lparr>microsecond := 0\<rparr>)"
proof -
  from assms have b: "year d < 10 ^ 4" "month d < 10 ^ 2" "day d < 10 ^ 2" "hour d < 10 ^ 2"
    "minute d < 10 ^ 2" "second d < 10 ^ 2"
    and dm: "day d \<le> days_in_month (year d) (month d)"
    by (auto simp: valid_datetime_def days_in_month_def DAYS_IN_MONTH_def nth_Cons'
        split: if_splits)
  define Y M D H Mi S where "Y = zfill 4 (year d)" and "M = zfill 2 (month d)"
    and "D = zfill 2 (day d)" and "H = zfill 2 (hour d)" and "Mi = zfill 2 (minute d)"
    and "S = zfill 2 (second d)"
  have len: "length Y = 4" "length M = 2" "length D = 2" "length H = 2" "length Mi = 2"
    "length S = 2"
    and val: "parse_digits 0 Y = Some (year d)" "parse_digits 0 M = Some (month d)"
    "parse_digits 0 D = Some (day d)" "parse_digits 0 H = Some (hour d)"
    "parse_digits 0 Mi = Some (minute d)" "parse_digits 0 S = Some (second d)"
    unfolding Y_def M_def D_def H_def Mi_def S_def using b by (simp_all add: zfill_field)
  have s: "now_iso d = Y @ ''-'' @ M @ ''-'' @ D @ ''T'' @ H @ '':'' @ Mi @ '':'' @ S"
    by (simp add: now_iso_def Y_def M_def D_def H_def Mi_def S_def)
  have f: "field (now_iso d) 0 4 = Some (year d)" "field (now_iso d) 5 2 = Some (month d)"
    "field (now_iso d) 8 2 = Some (day d)" "field (now_iso d) 11 2 = Some (hour d)"
    "field (now_iso d) 14 2 = Some (minute d)" "field (now_iso d) 17 2 = Some (second d)"
    unfolding s field_def using len val by simp_all
  have sep: "length (now_iso d) = 19" "now_iso d ! 4 = CHR ''-''" "now_iso d ! 7 = CHR ''-''"
    "now_iso d ! 10 = CHR ''T''" "now_iso d ! 13 = CHR '':''" "now_iso d ! 16 = CHR '':''"
    unfolding s using len by (simp_all add: nth_append)
  show ?thesis
    using assms by (simp add: fromisoformat_seconds_def f sep valid_datetime_def)
qed

text \<open>
  So every session of a run whose calls happen at valid instants starts at a timestamp the
  parser reads, and so does the timer while one is set: what the theorems on the daily
  scores and on stopping the timer assume of start times holds in every store the engine
  reaches.
\<close>

lemma exec_stamps_ok:
  assumes "stamps_ok st" and "valid_datetime now"
  shows "stamps_ok (snd (exec fromisoformat_seconds st now a))"
proof (cases a)
  case (NewTask ti cat prio d tm recur desc)
  then show ?thesis
    using assms by (simp add: new_task_def stamps_ok_def Let_def)
next
  case (Complete i mins)
  show ?thesis
  proof (cases "fetch_task st i")
    case None
    then show ?thesis
      using assms Complete by (simp add: complete_def)
  next
    case (Some row)
    from complete_effect [OF Some, of fromisoformat_seconds now mins]
    have "work_sessions (snd (complete fromisoformat_seconds st now i mins))
         = (if truthy_num mins \<and> 0 < the mins
            then work_sessions st @
                 [\<lparr>ws_id = next_rowid (map ws_id (work_sessions st)), task_id = i,
                   start_time = now_iso now, end_time = now_iso now,
                   duration_minutes = the mins\<rparr>]
            else work_sessions st)"
      and "ss_pom_start (snd (complete fromisoformat_seconds st now i mins)) = ss_pom_start st"
      by blast+
    then show ?thesis
      using assms Complete
      by (auto simp: stamps_ok_def fromisoformat_now_iso split: if_splits)
  qed
next
  case (PomStart i)
  then show ?thesis
    using assms by (simp add: pom_start_def stamps_ok_def fromisoformat_now_iso)
next
  case (PomStop save)
  then show ?thesis
    using assms
    by (auto simp: pom_stop_def insert_session_def stamps_ok_def Let_def truthy_str_def
        split: option.splits)
qed

lemma run_stamps_ok:
  "stamps_ok st \<Longrightarrow> \<forall>x\<in>set acts. valid_datetime (fst x)
     \<Longrightarrow> stamps_ok (run fromisoformat_seconds st acts)"
proof (induction acts arbitrary: st)
  case Nil
  then show ?case by simp
next
  case (Cons x acts)
  obtain now a where x: "x = (now, a)" by (cases x)
  from Cons.prems have "stamps_ok (snd (exec fromisoformat_seconds st now a))"
    by (simp add: x exec_stamps_ok)
  then show ?case
    using Cons.prems unfolding x by (simp add: Cons.IH)
qed

lemma stamps_ok_empty_store: "stamps_ok empty_store"
  by (simp add: stamps_ok_def empty_store_def)

text \<open>
  A timer started and stopped within the same second, at any valid instant and for any
  task id but 0, records a session of 1 minute from that second to itself.
\<close>

lemma pom_start_stop_same_instant:
  assumes now: "valid_datetime now" and i: "i \<noteq> 0"
  shows "pom_stop fromisoformat_seconds (snd (pom_start st now i)) now True
           = (Inr (), insert_session (st\<lparr>ss_pom_task := None, ss_pom_start := None\<rparr>) i
                        (now_iso now) (now_iso now) 1)"
proof -
  have p: "fromisoformat_seconds (now_iso now) = Some (now\<lparr>microsecond := 0\<rparr>)"
    using now by (rule fromisoformat_now_iso)
  have "fromisoformat_seconds [] = None"
    by (simp add: fromisoformat_seconds_def)
  with p have ne: "now_iso now \<noteq> []"
    by auto
  have "minutes_between now (now\<lparr>microsecond := 0\<rparr>) = of_nat (microsecond now) / 60000000"
    by (simp add: minutes_between_def total_microseconds_def toordinal_def)
  moreover have "(of_nat (microsecond now) :: rat) \<le> 60000000"
    using now by (simp add: valid_datetime_def)
  ultimately have m: "max 1 (minutes_between now (now\<lparr>microsecond := 0\<rparr>)) = 1"
    by (simp add: max_def)
  show ?thesis
    using i ne
    by (simp add: pom_stop_def pom_start_def truthy_int_def truthy_str_def p m Let_def)
qed

end
